theory Spec2Isabelle
  imports Main "HOL-Library.Word" "HOL-Library.Sublist"
begin

section \<open>The file-mount object: taskvine/src/manager/vine_mount.c\<close>

text \<open>
  A \<^verbatim>\<open>struct vine_mount\<close> associates a \<^verbatim>\<open>struct vine_file\<close> with a remote name,
  flags and an optional substitute file. The three functions of the file create, delete and
  copy mounts on the C heap, so the heap is explicit here: a pointer is an address into a
  store, \<open>NULL\<close> is \<open>None\<close>, and every function takes the heap and returns the new one.

  A store is a list of cells indexed by address. A cell is \<open>None\<close> when nothing lives at the
  address (never allocated, or freed). An allocation takes the first address past the end
  of the store, so the address it returns names no live object.
\<close>

type_synonym addr = nat

definition lookup :: "'a option list \<Rightarrow> addr \<Rightarrow> 'a option" where
  "lookup cells a = (if a < length cells then cells ! a else None)"

text \<open>
  What ends a call without a return value: \<open>Aborted\<close> is the process terminated by the
  aborting allocation primitive (\<^verbatim>\<open>xxmalloc.h\<close>) on out-of-memory; \<open>Fault\<close> is a load or
  store through a pointer that names no object (\<open>NULL\<close> or dangling), which C leaves
  undefined.
\<close>

datatype error = Aborted | Fault

text \<open>
  \<^verbatim>\<open>struct vine_file\<close> is declared outside this file; only its reference count matters to
  the mount code.
\<close>

record vine_file =
  refcount :: int

type_synonym vine_mount_flags_t = int

record vine_mount =
  file_ptr :: "addr option"
  remote_name :: "string option"
  flags :: vine_mount_flags_t
  substitute :: "addr option"

text \<open>
  The heap: the file objects, the mount objects, and \<open>avail\<close>, the number of allocation
  requests the allocator can still satisfy (zero: out of memory). A \<^verbatim>\<open>char *\<close> string owned
  by a mount is kept by value in the mount; its allocation and release are counted in
  \<open>avail\<close>.
\<close>

record heap =
  files :: "vine_file option list"
  mounts :: "vine_mount option list"
  avail :: nat

text \<open>
  \<^verbatim>\<open>malloc(sizeof(struct vine_mount))\<close>: \<open>NULL\<close> when no memory is left, otherwise the
  address of a new cell. C leaves the contents of the new cell unspecified;
  \<open>uninitialised\<close> stands for them, and \<open>vine_mount_create\<close> assigns every field.
\<close>

definition uninitialised :: vine_mount where
  "uninitialised = \<lparr>file_ptr = None, remote_name = None, flags = 0, substitute = None\<rparr>"

definition malloc :: "heap \<Rightarrow> addr option \<times> heap" where
  "malloc h =
     (if avail h = 0 then (None, h)
      else (Some (length (mounts h)),
            h\<lparr>mounts := mounts h @ [Some uninitialised], avail := avail h - 1\<rparr>))"

text \<open>\<^verbatim>\<open>free(p)\<close> for a string and for a mount; \<^verbatim>\<open>free(NULL)\<close> does nothing.\<close>

definition free_string :: "heap \<Rightarrow> string option \<Rightarrow> heap" where
  "free_string h s = (case s of None \<Rightarrow> h | Some _ \<Rightarrow> h\<lparr>avail := avail h + 1\<rparr>)"

definition free_mount :: "heap \<Rightarrow> addr \<Rightarrow> heap" where
  "free_mount h a = h\<lparr>mounts := (mounts h)[a := None], avail := avail h + 1\<rparr>"

text \<open>
  Modelled from the spec: \<^verbatim>\<open>xxstrdup\<close> of \<^verbatim>\<open>xxmalloc.h\<close>, whose source is not in
  the repository excerpt. The spec describes the family as
  "an allocation primitive that aborts the process on out-of-memory": the copy of the
  string is returned, or the process is terminated.
\<close>

definition xxstrdup :: "heap \<Rightarrow> string \<Rightarrow> error + (heap \<times> string)" where
  "xxstrdup h s =
     (if avail h = 0 then Inl Aborted else Inr (h\<lparr>avail := avail h - 1\<rparr>, s))"

text \<open>
  Modelled from the spec: \<^verbatim>\<open>vine_file_clone\<close> and \<^verbatim>\<open>vine_file_delete\<close> of
  \<^verbatim>\<open>vine_file.c\<close>, whose source is not in the repository excerpt. The spec calls the
  mount "a reference-counted association between a logical file and a remote name/flags",
  and \<open>vine_mount_create\<close> says of the clone: "Add a reference each time a file is
  connected." So a clone adds one reference to the file and returns the same pointer, a
  delete drops one reference and releases the file with its last reference, and both
  accept \<open>NULL\<close>.
\<close>

definition vine_file_clone :: "heap \<Rightarrow> addr option \<Rightarrow> error + (heap \<times> addr option)" where
  "vine_file_clone h f =
     (case f of
        None \<Rightarrow> Inr (h, None)
      | Some a \<Rightarrow>
          (case lookup (files h) a of
             None \<Rightarrow> Inl Fault
           | Some vf \<Rightarrow>
               Inr (h\<lparr>files := (files h)[a := Some (vf\<lparr>refcount := refcount vf + 1\<rparr>)]\<rparr>,
                    Some a)))"

definition vine_file_delete :: "heap \<Rightarrow> addr option \<Rightarrow> error + heap" where
  "vine_file_delete h f =
     (case f of
        None \<Rightarrow> Inr h
      | Some a \<Rightarrow>
          (case lookup (files h) a of
             None \<Rightarrow> Inl Fault
           | Some vf \<Rightarrow>
               (if refcount vf - 1 > 0
                then Inr (h\<lparr>files := (files h)[a := Some (vf\<lparr>refcount := refcount vf - 1\<rparr>)]\<rparr>)
                else Inr (h\<lparr>files := (files h)[a := None], avail := avail h + 1\<rparr>))))"

text \<open>
  \<^verbatim>\<open>m->field = v\<close> for a mount pointer \<open>m\<close> that \<open>malloc\<close> returned.
\<close>

definition store_mount :: "heap \<Rightarrow> addr \<Rightarrow> (vine_mount \<Rightarrow> vine_mount) \<Rightarrow> error + heap" where
  "store_mount h a upd =
     (case lookup (mounts h) a of
        None \<Rightarrow> Inl Fault
      | Some m \<Rightarrow> Inr (h\<lparr>mounts := (mounts h)[a := Some (upd m)]\<rparr>))"

text \<open>
  \<^verbatim>\<open>vine_mount_create\<close>, statement by statement. The result of \<open>malloc\<close> is used
  unchecked: when it is \<open>NULL\<close>, the first assignment \<^verbatim>\<open>m->file = ...\<close> stores through
  \<open>NULL\<close>.
\<close>

definition vine_mount_create ::
  "heap \<Rightarrow> addr option \<Rightarrow> string option \<Rightarrow> vine_mount_flags_t \<Rightarrow> addr option
     \<Rightarrow> error + (heap \<times> addr option)" where
  "vine_mount_create h0 file_arg remote_name_arg flags_arg substitute_arg =
     (case malloc h0 of
        (None, _) \<Rightarrow> Inl Fault
      | (Some m, h1) \<Rightarrow>
     (case vine_file_clone h1 file_arg of
        Inl e \<Rightarrow> Inl e
      | Inr (h2, f) \<Rightarrow>
     (case store_mount h2 m (\<lambda>c. c\<lparr>file_ptr := f\<rparr>) of
        Inl e \<Rightarrow> Inl e
      | Inr h3 \<Rightarrow>
     (case (case remote_name_arg of
              Some s \<Rightarrow>
                (case xxstrdup h3 s of
                   Inl e \<Rightarrow> Inl e
                 | Inr (h, s') \<Rightarrow> store_mount h m (\<lambda>c. c\<lparr>remote_name := Some s'\<rparr>))
            | None \<Rightarrow> store_mount h3 m (\<lambda>c. c\<lparr>remote_name := None\<rparr>)) of
        Inl e \<Rightarrow> Inl e
      | Inr h4 \<Rightarrow>
     (case store_mount h4 m (\<lambda>c. c\<lparr>flags := flags_arg\<rparr>) of
        Inl e \<Rightarrow> Inl e
      | Inr h5 \<Rightarrow>
     (case vine_file_clone h5 substitute_arg of
        Inl e \<Rightarrow> Inl e
      | Inr (h6, s) \<Rightarrow>
     (case store_mount h6 m (\<lambda>c. c\<lparr>substitute := s\<rparr>) of
        Inl e \<Rightarrow> Inl e
      | Inr h7 \<Rightarrow> Inr (h7, Some m))))))))"

text \<open>
  \<^verbatim>\<open>vine_mount_delete\<close>: nothing for \<open>NULL\<close>; otherwise the reference to \<open>m->file\<close> is
  released, then the name and the mount are freed. The source has no statement for
  \<open>m->substitute\<close>, and neither has the model.
\<close>

definition vine_mount_delete :: "heap \<Rightarrow> addr option \<Rightarrow> error + heap" where
  "vine_mount_delete h0 m_arg =
     (case m_arg of
        None \<Rightarrow> Inr h0
      | Some m \<Rightarrow>
          (case lookup (mounts h0) m of
             None \<Rightarrow> Inl Fault
           | Some c \<Rightarrow>
               (case vine_file_delete h0 (file_ptr c) of
                  Inl e \<Rightarrow> Inl e
                | Inr h1 \<Rightarrow> Inr (free_mount (free_string h1 (remote_name c)) m))))"

text \<open>\<^verbatim>\<open>vine_mount_copy\<close>: \<open>NULL\<close> for \<open>NULL\<close>, otherwise a mount created from the fields.\<close>

definition vine_mount_copy :: "heap \<Rightarrow> addr option \<Rightarrow> error + (heap \<times> addr option)" where
  "vine_mount_copy h m_arg =
     (case m_arg of
        None \<Rightarrow> Inr (h, None)
      | Some m \<Rightarrow>
          (case lookup (mounts h) m of
             None \<Rightarrow> Inl Fault
           | Some c \<Rightarrow> vine_mount_create h (file_ptr c) (remote_name c) (flags c) (substitute c)))"

text \<open>The reference count of the file at an address, when a file lives there.\<close>

definition refcount_at :: "heap \<Rightarrow> addr \<Rightarrow> int option" where
  "refcount_at h a = map_option refcount (lookup (files h) a)"

text \<open>A file pointer that can be dereferenced or is \<open>NULL\<close>.\<close>

definition file_ptr_ok :: "heap \<Rightarrow> addr option \<Rightarrow> bool" where
  "file_ptr_ok h f = (case f of None \<Rightarrow> True | Some a \<Rightarrow> lookup (files h) a \<noteq> None)"

text \<open>
  A small heap for concrete runs: two files with one reference each, no mount yet.
\<close>

definition heap2 :: "nat \<Rightarrow> heap" where
  "heap2 n = \<lparr>files = [Some \<lparr>refcount = 1\<rparr>, Some \<lparr>refcount = 1\<rparr>], mounts = [], avail = n\<rparr>"

text \<open>A heap that holds one mount of file 0 under the name \<open>out\<close>, with file 1 as substitute.\<close>

definition heap_mounted :: heap where
  "heap_mounted =
     \<lparr>files = [Some \<lparr>refcount = 2\<rparr>, Some \<lparr>refcount = 2\<rparr>],
      mounts = [Some \<lparr>file_ptr = Some 0, remote_name = Some ''out'', flags = 4,
                     substitute = Some 1\<rparr>],
      avail = 2\<rparr>"

section \<open>The message transport: a model of the connection from the specification\<close>

text \<open>
  The transport itself (\<^verbatim>\<open>mq.c\<close>) is not among the sources; only its test
  \<^verbatim>\<open>dttools/src/mq_store_test.c\<close> is. The definitions of this section are therefore written
  from the specification's description of a connection, with the names the test uses
  (\<^verbatim>\<open>mq_send_buffer\<close>, \<^verbatim>\<open>mq_send_fd\<close>, \<^verbatim>\<open>mq_store_buffer\<close>, \<^verbatim>\<open>mq_store_fd\<close>, \<^verbatim>\<open>mq_recv\<close>,
  \<^verbatim>\<open>MQ_MSG_BUFFER\<close>, \<^verbatim>\<open>MQ_MSG_FD\<close>).
\<close>

type_synonym byte = "8 word"

text \<open>
  Modelled from the spec: the wire header, which \<^verbatim>\<open>mq.c\<close> defines. Each message
  "is preceded by a fixed-size header carrying the payload length". The specification
  fixes neither the size nor the layout; here the header is the length in \<open>HDR_SIZE = 8\<close>
  bytes, least significant byte first.
\<close>

definition HDR_SIZE :: nat where
  "HDR_SIZE = 8"

fun encode_len :: "nat \<Rightarrow> nat \<Rightarrow> byte list" where
  "encode_len 0 n = []"
| "encode_len (Suc k) n = of_nat (n mod 256) # encode_len k (n div 256)"

fun decode_len :: "byte list \<Rightarrow> nat" where
  "decode_len [] = 0"
| "decode_len (b # bs) = unat b + 256 * decode_len bs"

definition header_of :: "nat \<Rightarrow> byte list" where
  "header_of n = encode_len HDR_SIZE n"

text \<open>What a message looks like on the wire: its header, then its payload.\<close>

definition frame :: "byte list \<Rightarrow> byte list" where
  "frame p = header_of (length p) @ p"

text \<open>
  Modelled from the spec: the data model of \<^verbatim>\<open>mq.h\<close>, which is not among the sources.
  A connection is "in one of the states {CONNECTING, CONNECTED, CLOSED}". A sink is "tagged
  as MEMORY(buffer handle) or STREAM(file descriptor)", and the outbound source is
  "symmetric to Sink", so one type serves both. The test names the two kinds that
  \<^verbatim>\<open>mq_recv\<close> reports \<^verbatim>\<open>MQ_MSG_BUFFER\<close> and \<^verbatim>\<open>MQ_MSG_FD\<close>. \<open>INVALID_STATE\<close> is the
  specification's error for "API misuse: armed-while-armed, enqueue-while-closed".
\<close>

datatype mq_state = CONNECTING | CONNECTED | CLOSED

datatype storage = MEMORY nat | STREAM nat

datatype mq_msg_t = MQ_MSG_BUFFER | MQ_MSG_FD

datatype mq_error = INVALID_STATE

fun kind_of :: "storage \<Rightarrow> mq_msg_t" where
  "kind_of (MEMORY b) = MQ_MSG_BUFFER"
| "kind_of (STREAM fd) = MQ_MSG_FD"

text \<open>
  Modelled from the spec: a queued outbound message of \<^verbatim>\<open>mq.c\<close>. A message has a
  byte length and "a payload source/destination that is either memory bytes or a file
  descriptor"; for a file the length is "determined by seeking/size at enqueue time". The
  caller keeps the
  buffer or descriptor and must leave it alone while the message is queued, so the message
  records the bytes its source holds when it is enqueued.
\<close>

record out_msg =
  src :: storage
  body :: "byte list"

text \<open>
  Modelled from the spec: the connection object \<^verbatim>\<open>struct mq\<close> of \<^verbatim>\<open>mq.c\<close>. It owns
  "an ordered queue of pending outbound messages" (\<open>sendq\<close>, the head is the one in
  flight), the "partial-I/O counters for the message currently being written/read"
  (\<open>hdr_off\<close>, \<open>body_off\<close>: "byte offset into header, byte offset into payload"), and the
  one inbound operation: the header bytes read so far (\<open>hdr_buf\<close>), the "bytes-remaining
  counter" once the header is complete (\<open>body_rem\<close>), the sink the caller has armed
  (\<open>armed\<close>), and what \<^verbatim>\<open>mq_recv\<close> surfaces, the kind and length of the most recently
  completed inbound message (\<open>completed\<close>). The specification's idle inbound state is \<open>armed = None\<close> with an empty
  \<open>hdr_buf\<close>. The caller's memory buffers and open files, which sources and sinks refer to
  by handle, are the fields \<open>buffers\<close> and \<open>fds\<close>.
\<close>

record mq =
  state :: mq_state
  buffers :: "nat \<Rightarrow> byte list"
  fds :: "nat \<Rightarrow> byte list"
  sendq :: "out_msg list"
  hdr_off :: nat
  body_off :: nat
  hdr_buf :: "byte list"
  body_rem :: "nat option"
  armed :: "storage option"
  completed :: "(mq_msg_t \<times> nat) option"


text \<open>
  Modelled from the spec: the byte sink of \<^verbatim>\<open>mq.c\<close>. "A MEMORY sink accumulates bytes by
  appending; a STREAM sink writes bytes directly to the descriptor as they arrive".
\<close>

fun content :: "mq \<Rightarrow> storage \<Rightarrow> byte list" where
  "content c (MEMORY b) = buffers c b"
| "content c (STREAM fd) = fds c fd"

fun deliver :: "mq \<Rightarrow> storage \<Rightarrow> byte \<Rightarrow> mq" where
  "deliver c (MEMORY b) x = c\<lparr>buffers := (buffers c)(b := buffers c b @ [x])\<rparr>"
| "deliver c (STREAM fd) x = c\<lparr>fds := (fds c)(fd := fds c fd @ [x])\<rparr>"

text \<open>
  Modelled from the spec: \<^verbatim>\<open>mq_send_buffer\<close> and \<^verbatim>\<open>mq_send_fd\<close> of \<^verbatim>\<open>mq.c\<close>.
  They "enqueue a new outbound message; fails with INVALID_STATE if the connection is
  CLOSED. Enqueuing never blocks; actual transfer happens lazily."
\<close>

definition mq_send :: "mq \<Rightarrow> storage \<Rightarrow> mq_error + mq" where
  "mq_send c s =
     (if state c = CLOSED then Inl INVALID_STATE
      else Inr (c\<lparr>sendq := sendq c @ [\<lparr>src = s, body = content c s\<rparr>]\<rparr>))"

definition mq_send_buffer :: "mq \<Rightarrow> nat \<Rightarrow> mq_error + mq" where
  "mq_send_buffer c b = mq_send c (MEMORY b)"

definition mq_send_fd :: "mq \<Rightarrow> nat \<Rightarrow> mq_error + mq" where
  "mq_send_fd c fd = mq_send c (STREAM fd)"

text \<open>
  Modelled from the spec: \<^verbatim>\<open>mq_store_buffer\<close> and \<^verbatim>\<open>mq_store_fd\<close> of \<^verbatim>\<open>mq.c\<close>.
  They "arm the next inbound operation with the given Sink; fails with INVALID_STATE if an
  inbound operation is already armed and not yet complete, or the connection is CLOSED."
\<close>

definition mq_store :: "mq \<Rightarrow> storage \<Rightarrow> mq_error + mq" where
  "mq_store c s =
     (if state c = CLOSED \<or> armed c \<noteq> None then Inl INVALID_STATE
      else Inr (c\<lparr>armed := Some s\<rparr>))"

definition mq_store_buffer :: "mq \<Rightarrow> nat \<Rightarrow> mq_error + mq" where
  "mq_store_buffer c b = mq_store c (MEMORY b)"

definition mq_store_fd :: "mq \<Rightarrow> nat \<Rightarrow> mq_error + mq" where
  "mq_store_fd c fd = mq_store c (STREAM fd)"

text \<open>
  Modelled from the spec: \<^verbatim>\<open>mq_recv\<close> of \<^verbatim>\<open>mq.c\<close>. It "surfaces the most recently
  completed inbound message's sink kind (MEMORY or STREAM) and byte length, analogous to
  draining an event": the result is returned once and cleared.
\<close>

definition mq_recv :: "mq \<Rightarrow> (mq_msg_t \<times> nat) option \<times> mq" where
  "mq_recv c = (completed c, c\<lparr>completed := None\<rparr>)"

text \<open>
  Modelled from the spec: the write path of \<^verbatim>\<open>mq.c\<close>, one byte at a time. "The write path
  first ensures the full header is written before any payload bytes, handling partial
  writes by resuming at the recorded offset". \<open>tx_byte\<close> is the next byte of the message at
  the head of the queue, with the offset advanced; \<open>tx_next\<close> removes the head once its
  header and payload are written in full, so that the one message in flight is always the
  head of the queue.
\<close>

definition tx_next :: "mq \<Rightarrow> mq" where
  "tx_next c =
     (case sendq c of
        [] \<Rightarrow> c
      | m # q \<Rightarrow>
          if hdr_off c = HDR_SIZE \<and> body_off c = length (body m)
          then c\<lparr>sendq := q, hdr_off := 0, body_off := 0\<rparr>
          else c)"

definition tx_byte :: "mq \<Rightarrow> (byte \<times> mq) option" where
  "tx_byte c =
     (case sendq c of
        [] \<Rightarrow> None
      | m # q \<Rightarrow>
          if hdr_off c < HDR_SIZE
          then Some (header_of (length (body m)) ! hdr_off c,
                     tx_next (c\<lparr>hdr_off := hdr_off c + 1\<rparr>))
          else if body_off c < length (body m)
          then Some (body m ! body_off c, tx_next (c\<lparr>body_off := body_off c + 1\<rparr>))
          else None)"

text \<open>
  Modelled from the spec: the read path of \<^verbatim>\<open>mq.c\<close>, one byte at a time. It "buffers a partial
  header across non-blocking read calls, then, once the length is known, streams payload
  bytes directly into whichever Sink is currently armed". With the
  header known and no sink armed, "the implementation must buffer header bytes but block
  progress of payload consumption until the caller arms a Sink": \<open>rx_byte\<close> takes no byte
  then. \<open>rx_settle\<close> makes the transitions that consume no byte: from a complete header to
  the payload once a sink is armed, and from a payload with nothing remaining to the
  completed result, which disarms the sink.
\<close>

definition rx_finish :: "mq \<Rightarrow> mq" where
  "rx_finish c =
     (case (body_rem c, armed c) of
        (Some 0, Some s) \<Rightarrow>
          c\<lparr>completed := Some (kind_of s, decode_len (hdr_buf c)), armed := None,
            body_rem := None, hdr_buf := []\<rparr>
      | _ \<Rightarrow> c)"

definition rx_settle :: "mq \<Rightarrow> mq" where
  "rx_settle c =
     (case body_rem c of
        Some r \<Rightarrow> rx_finish c
      | None \<Rightarrow>
          if length (hdr_buf c) = HDR_SIZE \<and> armed c \<noteq> None
          then rx_finish (c\<lparr>body_rem := Some (decode_len (hdr_buf c))\<rparr>)
          else c)"

definition rx_byte :: "mq \<Rightarrow> byte \<Rightarrow> mq option" where
  "rx_byte c x =
     (case body_rem c of
        None \<Rightarrow>
          if length (hdr_buf c) < HDR_SIZE then Some (c\<lparr>hdr_buf := hdr_buf c @ [x]\<rparr>) else None
      | Some r \<Rightarrow>
          (case armed c of
             Some s \<Rightarrow> if 0 < r then Some ((deliver c s x)\<lparr>body_rem := Some (r - 1)\<rparr>) else None
           | None \<Rightarrow> None))"

text \<open>
  Modelled from the spec: one direction of an established TCP connection between two
  \<^verbatim>\<open>struct mq\<close> endpoints. The socket is a reliable byte stream: \<open>stream\<close> holds every
  byte the sending endpoint \<open>tx\<close> has written so far, in order, and \<open>rd_pos\<close> counts the
  bytes the receiving endpoint \<open>rx\<close> has read from it.
\<close>

record link =
  tx :: mq
  rx :: mq
  stream :: "byte list"
  rd_pos :: nat


definition tx_step :: "link \<Rightarrow> link" where
  "tx_step l =
     (case tx_byte (tx l) of
        None \<Rightarrow> l
      | Some (x, c) \<Rightarrow> l\<lparr>tx := c, stream := stream l @ [x]\<rparr>)"

definition rx_step :: "link \<Rightarrow> link" where
  "rx_step l =
     (if rd_pos l < length (stream l)
      then (case rx_byte (rx l) (stream l ! rd_pos l) of
              None \<Rightarrow> l
            | Some c \<Rightarrow> l\<lparr>rx := rx_settle c, rd_pos := rd_pos l + 1\<rparr>)
      else l)"

text \<open>
  Modelled from the spec: the \<open>drive()\<close> step of \<^verbatim>\<open>mq.c\<close>, which \<^verbatim>\<open>mq_wait\<close> and
  \<^verbatim>\<open>mq_poll_wait\<close> invoke. It "performs as much non-blocking read/write as the OS accepts
  without blocking". How much the OS accepts is not in the connection's hands, so it is an
  argument: \<open>write_path n\<close> is a drive of the sender in which the socket takes at most
  \<open>n\<close> bytes, \<open>read_path n\<close> a drive of the receiver in which the socket yields at most
  \<open>n\<close> bytes. A closed connection does no I/O; the first I/O on a connecting one finds it
  connected.
\<close>

definition write_path :: "nat \<Rightarrow> link \<Rightarrow> link" where
  "write_path n l =
     (if state (tx l) = CLOSED then l
      else (tx_step ^^ n) (l\<lparr>tx := (tx l)\<lparr>state := CONNECTED\<rparr>\<rparr>))"

definition read_path :: "nat \<Rightarrow> link \<Rightarrow> link" where
  "read_path n l =
     (if state (rx l) = CLOSED then l
      else (rx_step ^^ n) (l\<lparr>rx := rx_settle ((rx l)\<lparr>state := CONNECTED\<rparr>)\<rparr>))"

text \<open>
  A schedule is what happens on the link, in order. \<open>Send s\<close> is the sending application
  enqueueing a message from the source \<open>s\<close> (\<^verbatim>\<open>mq_send_buffer\<close> for \<open>MEMORY\<close>,
  \<^verbatim>\<open>mq_send_fd\<close> for \<open>STREAM\<close>), \<open>Store s\<close> the receiving application arming the sink
  \<open>s\<close> (\<^verbatim>\<open>mq_store_buffer\<close> for \<open>MEMORY\<close>, \<^verbatim>\<open>mq_store_fd\<close> for \<open>STREAM\<close>), \<open>Recv\<close> the
  receiving application calling \<^verbatim>\<open>mq_recv\<close>; a call that fails leaves the connection as
  it was. \<open>Flush n\<close> and \<open>Fill n\<close> are drives of the sender and of the receiver with the
  amounts the OS allows.
\<close>

datatype event = Send storage | Store storage | Recv | Flush nat | Fill nat

fun exec :: "event \<Rightarrow> link \<Rightarrow> link" where
  "exec (Send s) l = (case mq_send (tx l) s of Inl e \<Rightarrow> l | Inr c \<Rightarrow> l\<lparr>tx := c\<rparr>)"
| "exec (Store s) l = (case mq_store (rx l) s of Inl e \<Rightarrow> l | Inr c \<Rightarrow> l\<lparr>rx := c\<rparr>)"
| "exec Recv l = l\<lparr>rx := snd (mq_recv (rx l))\<rparr>"
| "exec (Flush n) l = write_path n l"
| "exec (Fill n) l = read_path n l"

definition run :: "event list \<Rightarrow> link \<Rightarrow> link" where
  "run es l = fold exec es l"



subsection \<open>Invariants of a link\<close>

text \<open>The frames of a list of payloads, as one byte sequence.\<close>

definition frames :: "byte list list \<Rightarrow> byte list" where
  "frames Ps = concat (map frame Ps)"

text \<open>The bytes the sender has still to write: the rest of the head message, then the queue.\<close>

definition tx_pending :: "mq \<Rightarrow> byte list" where
  "tx_pending c =
     (case sendq c of
        [] \<Rightarrow> []
      | m # q \<Rightarrow>
          drop (hdr_off c) (header_of (length (body m))) @ drop (body_off c) (body m)
            @ frames (map body q))"

text \<open>The offsets belong to the head of the queue, which is never complete.\<close>

definition tx_wf :: "mq \<Rightarrow> bool" where
  "tx_wf c =
     (case sendq c of
        [] \<Rightarrow> hdr_off c = 0 \<and> body_off c = 0
      | m # q \<Rightarrow>
          (hdr_off c < HDR_SIZE \<and> body_off c = 0)
          \<or> (hdr_off c = HDR_SIZE \<and> body_off c < length (body m)))"

text \<open>
  Where the receiver \<open>c\<close> stands \<open>p\<close> bytes into the frame of the payload \<open>P\<close>: in its header
  or in its payload. \<open>cur\<close> is the sink armed for the message, if one is, with the bytes it
  held when it was armed; a payload is delivered to an armed sink only.
\<close>

definition hdr_ph :: "byte list \<Rightarrow> (storage \<times> byte list) option \<Rightarrow> mq \<Rightarrow> nat \<Rightarrow> bool" where
  "hdr_ph P cur c p \<longleftrightarrow>
     body_rem c = None \<and> p \<le> HDR_SIZE \<and> hdr_buf c = take p (header_of (length P))
     \<and> (case cur of None \<Rightarrow> True | Some (s, c0) \<Rightarrow> content c s = c0)"

definition body_ph :: "byte list \<Rightarrow> (storage \<times> byte list) option \<Rightarrow> mq \<Rightarrow> nat \<Rightarrow> bool" where
  "body_ph P cur c p \<longleftrightarrow>
     (case cur of
        None \<Rightarrow> False
      | Some (s, c0) \<Rightarrow>
          HDR_SIZE \<le> p \<and> p < HDR_SIZE + length P
          \<and> body_rem c = Some (HDR_SIZE + length P - p) \<and> hdr_buf c = header_of (length P)
          \<and> content c s = c0 @ take (p - HDR_SIZE) P)"





subsection \<open>The exchanges of the test\<close>











section \<open>Properties of the file-mount object\<close>

lemma lookup_append_new: "lookup (cells @ [c]) (length cells) = c"
  by (simp add: lookup_def)

lemma lookup_append_old: "a < length cells \<Longrightarrow> lookup (cells @ [c]) a = lookup cells a"
  by (simp add: lookup_def nth_append)

lemma lookup_Some_less: "lookup cells a = Some v \<Longrightarrow> a < length cells"
  by (simp add: lookup_def split: if_splits)

lemma lookup_update_same: "a < length cells \<Longrightarrow> lookup (cells[a := c]) a = c"
  by (simp add: lookup_def)

lemma lookup_update_other: "a \<noteq> b \<Longrightarrow> lookup (cells[a := c]) b = lookup cells b"
  by (simp add: lookup_def)

lemma lookup_length_None: "lookup cells (length cells) = None"
  by (simp add: lookup_def)

lemma malloc_ok:
  "0 < avail h \<Longrightarrow>
   malloc h = (Some (length (mounts h)),
               h\<lparr>mounts := mounts h @ [Some uninitialised], avail := avail h - 1\<rparr>)"
  by (simp add: malloc_def)

lemma vine_file_clone_ok:
  assumes "file_ptr_ok h f"
  shows "\<exists>h'. vine_file_clone h f = Inr (h', f) \<and> mounts h' = mounts h \<and> avail h' = avail h
           \<and> (\<forall>g. file_ptr_ok h' g = file_ptr_ok h g)"
proof (cases f)
  case None
  then show ?thesis by (simp add: vine_file_clone_def)
next
  case (Some a)
  with assms obtain vf where vf: "lookup (files h) a = Some vf"
    by (auto simp: file_ptr_ok_def)
  then have a: "a < length (files h)" by (rule lookup_Some_less)
  let ?h = "h\<lparr>files := (files h)[a := Some (vf\<lparr>refcount := refcount vf + 1\<rparr>)]\<rparr>"
  have "file_ptr_ok ?h g = file_ptr_ok h g" for g
  proof (cases g)
    case None
    then show ?thesis by (simp add: file_ptr_ok_def)
  next
    case (Some b)
    then show ?thesis using vf a
      by (cases "a = b") (simp_all add: file_ptr_ok_def lookup_update_same lookup_update_other)
  qed
  then show ?thesis using Some vf by (simp add: vine_file_clone_def)
qed

lemma store_mount_ok:
  assumes "lookup (mounts h) a = Some c"
  shows "store_mount h a upd = Inr (h\<lparr>mounts := (mounts h)[a := Some (upd c)]\<rparr>)"
  using assms by (simp add: store_mount_def)

lemma vine_mount_create_ok:
  assumes f: "file_ptr_ok h f" and s: "file_ptr_ok h s"
    and mem: "(if n = None then 1 else 2) \<le> avail h"
  shows "\<exists>h'. vine_mount_create h f n fl s = Inr (h', Some (length (mounts h)))
           \<and> lookup (mounts h') (length (mounts h))
               = Some \<lparr>file_ptr = f, remote_name = n, flags = fl, substitute = s\<rparr>
           \<and> (\<forall>a. a < length (mounts h) \<longrightarrow> lookup (mounts h') a = lookup (mounts h) a)"
proof -
  let ?m = "length (mounts h)"
  let ?h1 = "h\<lparr>mounts := mounts h @ [Some uninitialised], avail := avail h - 1\<rparr>"
  from mem have "0 < avail h" by (simp split: if_splits)
  then have m: "malloc h = (Some ?m, ?h1)" by (rule malloc_ok)
  have "file_ptr_ok ?h1 f" using f by (simp add: file_ptr_ok_def split: option.splits)
  from vine_file_clone_ok [OF this] obtain h2 where
    c1: "vine_file_clone ?h1 f = Inr (h2, f)" and m2: "mounts h2 = mounts ?h1"
    and a2: "avail h2 = avail ?h1" and ok2: "\<And>g. file_ptr_ok h2 g = file_ptr_ok ?h1 g"
    by blast
  let ?c3 = "uninitialised\<lparr>file_ptr := f\<rparr>"
  let ?h3 = "h2\<lparr>mounts := (mounts h2)[?m := Some ?c3]\<rparr>"
  have s3: "store_mount h2 ?m (\<lambda>c. c\<lparr>file_ptr := f\<rparr>) = Inr ?h3"
    by (rule store_mount_ok) (simp add: m2 lookup_append_new)
  let ?c4 = "?c3\<lparr>remote_name := n\<rparr>"
  let ?h4 = "?h3\<lparr>mounts := (mounts ?h3)[?m := Some ?c4],
                  avail := avail ?h3 - (if n = None then 0 else 1)\<rparr>"
  have l3: "lookup (mounts ?h3) ?m = Some ?c3"
    by (simp add: m2 lookup_def)
  have s4: "(case n of
              Some s \<Rightarrow>
                (case xxstrdup ?h3 s of
                   Inl e \<Rightarrow> Inl e
                 | Inr (h, s') \<Rightarrow> store_mount h ?m (\<lambda>c. c\<lparr>remote_name := Some s'\<rparr>))
            | None \<Rightarrow> store_mount ?h3 ?m (\<lambda>c. c\<lparr>remote_name := None\<rparr>)) = Inr ?h4"
  proof (cases n)
    case None
    then show ?thesis using l3 by (simp add: store_mount_def)
  next
    case (Some x)
    with mem a2 have "avail ?h3 \<noteq> 0" by simp
    then show ?thesis using Some l3 by (simp add: xxstrdup_def store_mount_def)
  qed
  let ?c5 = "?c4\<lparr>flags := fl\<rparr>"
  let ?h5 = "?h4\<lparr>mounts := (mounts ?h4)[?m := Some ?c5]\<rparr>"
  have s5: "store_mount ?h4 ?m (\<lambda>c. c\<lparr>flags := fl\<rparr>) = Inr ?h5"
    by (rule store_mount_ok) (simp add: m2 lookup_def)
  have "file_ptr_ok ?h1 s" using s by (simp add: file_ptr_ok_def split: option.splits)
  then have "file_ptr_ok h2 s" by (simp only: ok2)
  then have "file_ptr_ok ?h5 s" by (simp add: file_ptr_ok_def split: option.splits)
  from vine_file_clone_ok [OF this] obtain h6 where
    c6: "vine_file_clone ?h5 s = Inr (h6, s)" and m6: "mounts h6 = mounts ?h5"
    by blast
  let ?c7 = "?c5\<lparr>substitute := s\<rparr>"
  let ?h7 = "h6\<lparr>mounts := (mounts h6)[?m := Some ?c7]\<rparr>"
  have s7: "store_mount h6 ?m (\<lambda>c. c\<lparr>substitute := s\<rparr>) = Inr ?h7"
    by (rule store_mount_ok) (simp add: m6 m2 lookup_def)
  have r: "vine_mount_create h f n fl s = Inr (?h7, Some ?m)"
    unfolding vine_mount_create_def by (simp only: m c1 s3 s4 s5 c6 s7 prod.case option.case sum.case)
  have new: "lookup (mounts ?h7) ?m
               = Some \<lparr>file_ptr = f, remote_name = n, flags = fl, substitute = s\<rparr>"
    by (simp add: m6 m2 lookup_def uninitialised_def)
  have old: "lookup (mounts ?h7) a = lookup (mounts h) a" if "a < ?m" for a
    using that by (simp add: m6 m2 lookup_def nth_append)
  from r new old show ?thesis by blast
qed

lemmas mount_defs = vine_mount_create_def vine_mount_delete_def vine_mount_copy_def malloc_def
  vine_file_clone_def vine_file_delete_def store_mount_def xxstrdup_def free_string_def
  free_mount_def lookup_def uninitialised_def refcount_at_def file_ptr_ok_def

text \<open>
  What a create followed by its delete does to the reference counts, on any heap: a mount
  of the file \<open>f\<close> with a different file \<open>s\<close> as substitute is created and deleted again.
  The count of \<open>f\<close> is back where it was; the count of \<open>s\<close> is one higher.
\<close>

lemma vine_mount_create_files:
  assumes f: "lookup (files h) f = Some vf"
    and s: "lookup (files h) s = Some vs" and ne: "f \<noteq> s"
    and mem: "(if n = None then 1 else 2) \<le> avail h"
  shows "vine_mount_create h (Some f) n fl (Some s) =
     Inr (h\<lparr>files := (files h)[f := Some (vf\<lparr>refcount := refcount vf + 1\<rparr>),
                                 s := Some (vs\<lparr>refcount := refcount vs + 1\<rparr>)],
             mounts := mounts h @ [Some \<lparr>file_ptr = Some f, remote_name = n, flags = fl,
                                         substitute = Some s\<rparr>],
             avail := avail h - (if n = None then 1 else 2)\<rparr>,
          Some (length (mounts h)))"
  using assms
  by (cases n) (auto simp: mount_defs nth_append nth_list_update split: if_splits)

lemma files_free: "files (free_mount (free_string h n) m) = files h"
  by (cases n) (simp_all add: free_mount_def free_string_def)

lemma vine_mount_create_delete_counts:
  assumes f: "lookup (files h) f = Some vf" and pos: "0 < refcount vf"
    and s: "lookup (files h) s = Some vs" and ne: "f \<noteq> s"
    and mem: "(if n = None then 1 else 2) \<le> avail h"
  shows "\<exists>h1 m h2. vine_mount_create h (Some f) n fl (Some s) = Inr (h1, m)
           \<and> vine_mount_delete h1 m = Inr h2
           \<and> refcount_at h2 f = Some (refcount vf)
           \<and> refcount_at h2 s = Some (refcount vs + 1)"
proof -
  let ?h1 = "h\<lparr>files := (files h)[f := Some (vf\<lparr>refcount := refcount vf + 1\<rparr>),
                                 s := Some (vs\<lparr>refcount := refcount vs + 1\<rparr>)],
             mounts := mounts h @ [Some \<lparr>file_ptr = Some f, remote_name = n, flags = fl,
                                         substitute = Some s\<rparr>],
             avail := avail h - (if n = None then 1 else 2)\<rparr>"
  let ?m = "length (mounts h)"
  from f s have lf: "f < length (files h)" and ls: "s < length (files h)"
    by (auto dest: lookup_Some_less)
  have c: "vine_mount_create h (Some f) n fl (Some s) = Inr (?h1, Some ?m)"
    using f s ne mem by (rule vine_mount_create_files)
  have lm: "lookup (mounts ?h1) ?m
      = Some \<lparr>file_ptr = Some f, remote_name = n, flags = fl, substitute = Some s\<rparr>"
    by (simp add: lookup_def)
  have l1: "lookup (files ?h1) f = Some (vf\<lparr>refcount := refcount vf + 1\<rparr>)"
    using lf ls ne by (simp add: lookup_def nth_list_update)
  let ?h2 = "?h1\<lparr>files := (files ?h1)[f := Some (vf\<lparr>refcount := refcount vf\<rparr>)]\<rparr>"
  have d1: "vine_file_delete ?h1 (Some f) = Inr ?h2"
    using l1 pos by (simp add: vine_file_delete_def)
  let ?h3 = "free_mount (free_string ?h2 n) ?m"
  have d: "vine_mount_delete ?h1 (Some ?m) = Inr ?h3"
    unfolding vine_mount_delete_def using lm d1 by simp
  have "refcount_at ?h3 f = Some (refcount vf)"
    using lf ls ne by (simp add: refcount_at_def files_free lookup_def)
  moreover have "refcount_at ?h3 s = Some (refcount vs + 1)"
    using lf ls ne by (simp add: refcount_at_def files_free lookup_def)
  ultimately show ?thesis using c d by blast
qed

text \<open>With no memory left, \<open>vine_mount_create\<close> stores through the \<open>NULL\<close> that \<open>malloc\<close> returned.\<close>

lemma vine_mount_create_no_memory:
  "avail h = 0 \<Longrightarrow> vine_mount_create h f n fl s = Inl Fault"
  by (simp add: vine_mount_create_def malloc_def)

text \<open>
  C3, evaluated on the code. Claim: every reference that \<open>vine_mount_create\<close> acquires (one
  on \<open>file\<close>, one on \<open>substitute\<close>) is released by the matching \<open>vine_mount_delete\<close>, so a
  create followed by its delete leaves every reference count unchanged. The code releases
  \<open>m->file\<close> only: starting from two files with one reference each, a mount of file 0 with
  substitute 1 is created and deleted again; file 0 is back at one reference, file 1 is
  left with two. (\<open>vine_mount_create_delete_counts\<close> above has the same for every heap.)
\<close>

theorem vine_mount_delete_leaks_substitute:
  "refcount_at (heap2 2) 0 = Some 1 \<and> refcount_at (heap2 2) 1 = Some 1 \<and>
   (case vine_mount_create (heap2 2) (Some 0) (Some ''out'') 0 (Some 1) of
      Inl e \<Rightarrow> None
    | Inr (h, m) \<Rightarrow>
        (case vine_mount_delete h m of
           Inl e \<Rightarrow> None
         | Inr h' \<Rightarrow> Some (refcount_at h' 0, refcount_at h' 1)))
   = Some (Some 1, Some 2)"
  by (simp add: mount_defs heap2_def)

text \<open>
  C8, evaluated on the code. Claim: every allocation goes through the aborting allocation
  primitive, so no operation, \<open>vine_mount_create\<close> in particular, can observe a \<open>NULL\<close>
  allocation result. The code allocates the mount with plain \<open>malloc\<close> and does not test
  the result: on a heap with no memory left \<open>malloc\<close> returns \<open>NULL\<close> and
  \<open>vine_mount_create\<close> stores through it, where the aborting primitive (\<open>xxstrdup\<close>, used
  two statements later for the name) terminates the process.
\<close>

theorem vine_mount_create_observes_NULL:
  "fst (malloc (heap2 0)) = None \<and>
   vine_mount_create (heap2 0) (Some 0) (Some ''out'') 0 (Some 1) = Inl Fault \<and>
   xxstrdup (heap2 0) ''out'' = Inl Aborted"
  by (simp add: mount_defs heap2_def)

text \<open>
  C9. \<open>vine_mount_copy(NULL)\<close> returns \<open>NULL\<close> and leaves the heap as it was. For a pointer
  \<open>m\<close> to a live mount \<open>c\<close> whose file pointers can be dereferenced, and with memory left for
  the new mount (and for the copy of the name, when there is one), \<open>vine_mount_copy(m)\<close>
  returns a pointer \<open>m'\<close> to a fresh mount: \<open>m'\<close> differs from \<open>m\<close> and named no object
  before the call. The new mount's \<open>file\<close> and \<open>substitute\<close> are the same pointers as in
  \<open>c\<close>, its \<open>remote_name\<close> is the same string (and \<open>NULL\<close> exactly when \<open>c\<close>'s is), its
  \<open>flags\<close> are equal, and \<open>c\<close> itself is still at \<open>m\<close>.
\<close>

theorem vine_mount_copy_preserves_value:
  "vine_mount_copy h None = Inr (h, None) \<and>
   (\<forall>m c. lookup (mounts h) m = Some c \<and> file_ptr_ok h (file_ptr c)
            \<and> file_ptr_ok h (substitute c)
            \<and> (if remote_name c = None then 1 else 2) \<le> avail h \<longrightarrow>
      (\<exists>h' m' c'. vine_mount_copy h (Some m) = Inr (h', Some m')
          \<and> m' \<noteq> m \<and> lookup (mounts h) m' = None
          \<and> lookup (mounts h') m' = Some c'
          \<and> file_ptr c' = file_ptr c
          \<and> remote_name c' = remote_name c
          \<and> flags c' = flags c
          \<and> substitute c' = substitute c
          \<and> lookup (mounts h') m = Some c))"
proof (intro conjI allI impI)
  show "vine_mount_copy h None = Inr (h, None)"
    by (simp add: vine_mount_copy_def)
next
  fix m c
  assume pre: "lookup (mounts h) m = Some c \<and> file_ptr_ok h (file_ptr c)
            \<and> file_ptr_ok h (substitute c)
            \<and> (if remote_name c = None then 1 else 2) \<le> avail h"
  let ?m' = "length (mounts h)"
  from pre have live: "lookup (mounts h) m = Some c" by simp
  then have less: "m < ?m'" by (rule lookup_Some_less)
  from pre vine_mount_create_ok [of h "file_ptr c" "substitute c" "remote_name c" "flags c"]
  obtain h' where
    run: "vine_mount_create h (file_ptr c) (remote_name c) (flags c) (substitute c)
            = Inr (h', Some ?m')"
    and new: "lookup (mounts h') ?m'
            = Some \<lparr>file_ptr = file_ptr c, remote_name = remote_name c, flags = flags c,
                    substitute = substitute c\<rparr>"
    and old: "\<And>a. a < ?m' \<Longrightarrow> lookup (mounts h') a = lookup (mounts h) a"
    by blast
  have "vine_mount_copy h (Some m) = Inr (h', Some ?m')"
    using live run by (simp add: vine_mount_copy_def)
  moreover have "?m' \<noteq> m" using less by simp
  moreover have "lookup (mounts h) ?m' = None" by (rule lookup_length_None)
  moreover have "lookup (mounts h') m = Some c" using old [OF less] live by simp
  ultimately show "\<exists>h' m' c'. vine_mount_copy h (Some m) = Inr (h', Some m')
          \<and> m' \<noteq> m \<and> lookup (mounts h) m' = None
          \<and> lookup (mounts h') m' = Some c'
          \<and> file_ptr c' = file_ptr c
          \<and> remote_name c' = remote_name c
          \<and> flags c' = flags c
          \<and> substitute c' = substitute c
          \<and> lookup (mounts h') m = Some c"
    using new by (intro exI [of _ h'] exI [of _ ?m']) simp
qed

theorem vine_mount_copy_preserves_value_witness:
  "lookup (mounts heap_mounted) 0
     = Some \<lparr>file_ptr = Some 0, remote_name = Some ''out'', flags = 4, substitute = Some 1\<rparr>
   \<and> file_ptr_ok heap_mounted (Some 0) \<and> file_ptr_ok heap_mounted (Some 1)
   \<and> 2 \<le> avail heap_mounted
   \<and> (\<exists>h' m' c'. vine_mount_copy heap_mounted (Some 0) = Inr (h', Some m')
          \<and> m' \<noteq> 0 \<and> lookup (mounts heap_mounted) m' = None
          \<and> lookup (mounts h') m' = Some c'
          \<and> file_ptr c' = Some 0
          \<and> remote_name c' = Some ''out''
          \<and> flags c' = 4
          \<and> substitute c' = Some 1)"
proof -
  let ?c = "\<lparr>file_ptr = Some 0, remote_name = Some ''out'', flags = 4, substitute = Some 1\<rparr>"
  have pre: "lookup (mounts heap_mounted) 0 = Some ?c \<and> file_ptr_ok heap_mounted (file_ptr ?c)
       \<and> file_ptr_ok heap_mounted (substitute ?c)
       \<and> (if remote_name ?c = None then 1 else 2) \<le> avail heap_mounted"
    by (simp add: heap_mounted_def lookup_def file_ptr_ok_def)
  from vine_mount_copy_preserves_value [of heap_mounted] pre
  obtain h' m' c' where "vine_mount_copy heap_mounted (Some 0) = Inr (h', Some m')
          \<and> m' \<noteq> 0 \<and> lookup (mounts heap_mounted) m' = None
          \<and> lookup (mounts h') m' = Some c'
          \<and> file_ptr c' = file_ptr ?c
          \<and> remote_name c' = remote_name ?c
          \<and> flags c' = flags ?c
          \<and> substitute c' = substitute ?c"
    by blast
  then have "\<exists>h' m' c'. vine_mount_copy heap_mounted (Some 0) = Inr (h', Some m')
          \<and> m' \<noteq> 0 \<and> lookup (mounts heap_mounted) m' = None
          \<and> lookup (mounts h') m' = Some c'
          \<and> file_ptr c' = Some 0
          \<and> remote_name c' = Some ''out''
          \<and> flags c' = 4
          \<and> substitute c' = Some 1"
    by (intro exI [of _ h'] exI [of _ m'] exI [of _ c']) simp
  with pre show ?thesis by simp
qed

text \<open>
  C10. \<open>vine_mount_delete(NULL)\<close> returns at once: no reference is released, nothing is
  freed, and the heap is the one the call started with.
\<close>

theorem vine_mount_delete_NULL:
  "vine_mount_delete h None = Inr h"
  by (simp add: vine_mount_delete_def)

section \<open>Properties of the transport model\<close>

subsection \<open>The header carries the length\<close>






subsection \<open>The write path sends the pending bytes in order\<close>



lemma frames_Nil [simp]: "frames [] = []"
  by (simp add: frames_def)






subsection \<open>The read path, byte by byte\<close>


lemma content_deliver_prefix: "prefix (content c t) (content (deliver c s x) t)"
  by (cases s; cases t) simp_all

lemma deliver_fields:
  "state (deliver c s x) = state c" "hdr_buf (deliver c s x) = hdr_buf c"
  "armed (deliver c s x) = armed c" "completed (deliver c s x) = completed c"
  "body_rem (deliver c s x) = body_rem c"
  by (cases s; simp)+

lemma content_upd [simp]:
  "content (c\<lparr>hdr_buf := h\<rparr>) s = content c s"
  "content (c\<lparr>body_rem := r\<rparr>) s = content c s"
  "content (c\<lparr>armed := a\<rparr>) s = content c s"
  "content (c\<lparr>completed := d\<rparr>) s = content c s"
  "content (c\<lparr>state := st\<rparr>) s = content c s"
  by (cases s; simp)+

lemma content_rx_finish [simp]: "content (rx_finish c) s = content c s"
  by (simp add: rx_finish_def split: option.splits nat.splits)

lemma content_rx_settle [simp]: "content (rx_settle c) s = content c s"
  by (simp add: rx_settle_def split: option.splits)

lemma state_rx_finish [simp]: "state (rx_finish c) = state c"
  by (simp add: rx_finish_def split: option.splits nat.splits)

lemma state_rx_settle [simp]: "state (rx_settle c) = state c"
  by (simp add: rx_settle_def split: option.splits)

lemma rx_byte_content: "rx_byte c x = Some c' \<Longrightarrow> prefix (content c s) (content c' s)"
  by (auto simp: rx_byte_def content_deliver_prefix split: option.splits if_splits)

lemma rx_byte_state: "rx_byte c x = Some c' \<Longrightarrow> state c' = state c"
  by (auto simp: rx_byte_def deliver_fields split: option.splits if_splits)

















subsection \<open>Every event of a schedule keeps the invariant\<close>

lemma tx_upd_state [simp]:
  "tx_wf (c\<lparr>state := st\<rparr>) = tx_wf c" "tx_pending (c\<lparr>state := st\<rparr>) = tx_pending c"
  by (simp_all add: tx_wf_def tx_pending_def split: list.splits)








lemma ph_state [simp]:
  "hdr_ph P cur (c\<lparr>state := st\<rparr>) p = hdr_ph P cur c p"
  "body_ph P cur (c\<lparr>state := st\<rparr>) p = body_ph P cur c p"
  by (simp_all add: hdr_ph_def body_ph_def split: option.splits)












lemma content_armed [simp]:
  "content (c\<lparr>armed := a\<rparr>) s = content c s"
  "content (c\<lparr>completed := r\<rparr>) s = content c s"
  by (cases s; simp)+



lemma ph_completed [simp]:
  "hdr_ph P cur (c\<lparr>completed := r\<rparr>) p = hdr_ph P cur c p"
  "body_ph P cur (c\<lparr>completed := r\<rparr>) p = body_ph P cur c p"
  by (simp_all add: hdr_ph_def body_ph_def split: option.splits)






lemma run_append: "run (es @ fs) l = run fs (run es l)"
  by (simp add: run_def)



subsection \<open>Progress: a drive with enough bytes completes the message\<close>


lemma stream_rx_step [simp]: "stream (rx_step l) = stream l"
  by (simp add: rx_step_def split: option.splits)

lemma stream_rx_steps [simp]: "stream ((rx_step ^^ k) l) = stream l"
  by (induction k) simp_all















subsection \<open>The message a sink is armed for\<close>



subsection \<open>Round trip through a memory sink\<close>


subsection \<open>The exchanges of the test, step by step\<close>















subsection \<open>Sources and sinks are independent\<close>







end
